theory Spec2Isabelle
  imports Complex_Main
begin

section \<open>JavaScript values and strings\<close>

text \<open>
  The adapters and middlewares of the repository work on values that come out of
  \<^verbatim>\<open>JSON.parse\<close> and on JavaScript strings. A string is a \<^typ>\<open>string\<close>; a value is
  one of the shapes below. \<open>JUndefined\<close> is what reading an absent property gives.
\<close>

datatype jsnum = Finite rat | PosInfinity | NegInfinity | NaN

datatype jsval =
    JUndefined
  | JNull
  | JBool bool
  | JNum jsnum
  | JStr string
  | JArr "jsval list"
  | JObj "(string \<times> jsval) list"

datatype exn = SyntaxError | TypeError | Error jsval

text \<open>Truthiness, as \<^verbatim>\<open>if (v)\<close>, \<^verbatim>\<open>!v\<close> and \<^verbatim>\<open>a || b\<close> test it.\<close>

fun truthy :: "jsval \<Rightarrow> bool" where
  "truthy JUndefined = False"
| "truthy JNull = False"
| "truthy (JBool b) = b"
| "truthy (JNum (Finite r)) = (r \<noteq> 0)"
| "truthy (JNum NaN) = False"
| "truthy (JNum _) = True"
| "truthy (JStr s) = (s \<noteq> [])"
| "truthy (JArr _) = True"
| "truthy (JObj _) = True"

fun nullish :: "jsval \<Rightarrow> bool" where
  "nullish JUndefined = True"
| "nullish JNull = True"
| "nullish _ = False"

text \<open>
  \<^verbatim>\<open>v.key\<close> for the property names the code reads (\<^verbatim>\<open>choices\<close>, \<^verbatim>\<open>delta\<close>,
  \<^verbatim>\<open>content\<close>, \<^verbatim>\<open>candidates\<close>, \<^verbatim>\<open>parts\<close>, \<^verbatim>\<open>text\<close>, \<^verbatim>\<open>finishReason\<close>, \<^verbatim>\<open>type\<close>,
  \<^verbatim>\<open>error\<close>, \<^verbatim>\<open>message\<close>, \<^verbatim>\<open>role\<close>): none of them is defined on a prototype, so only
  an object's own entry can answer. Reading a property of \<^verbatim>\<open>undefined\<close> or \<^verbatim>\<open>null\<close>
  throws a TypeError.
\<close>

fun own_property :: "jsval \<Rightarrow> string \<Rightarrow> jsval" where
  "own_property (JObj kvs) key = (case map_of kvs key of None \<Rightarrow> JUndefined | Some v \<Rightarrow> v)"
| "own_property _ key = JUndefined"

definition js_get :: "jsval \<Rightarrow> string \<Rightarrow> exn + jsval" where
  "js_get v key = (if nullish v then Inl TypeError else Inr (own_property v key))"

text \<open>\<^verbatim>\<open>v[0]\<close>: the first element of an array, the first character of a string, the
  entry \<^verbatim>\<open>"0"\<close> of an object.\<close>

fun element0 :: "jsval \<Rightarrow> jsval" where
  "element0 (JArr []) = JUndefined"
| "element0 (JArr (x # xs)) = x"
| "element0 (JStr []) = JUndefined"
| "element0 (JStr (c # cs)) = JStr [c]"
| "element0 (JObj kvs) = (case map_of kvs ''0'' of None \<Rightarrow> JUndefined | Some v \<Rightarrow> v)"
| "element0 _ = JUndefined"

definition js_index0 :: "jsval \<Rightarrow> exn + jsval" where
  "js_index0 v = (if nullish v then Inl TypeError else Inr (element0 v))"

text \<open>Optional chaining, \<^verbatim>\<open>v?.key\<close> and \<^verbatim>\<open>v?.[0]\<close>: \<^verbatim>\<open>undefined\<close> on a nullish base.\<close>

definition opt_get :: "jsval \<Rightarrow> string \<Rightarrow> jsval" where
  "opt_get v key = (if nullish v then JUndefined else own_property v key)"

definition opt_index0 :: "jsval \<Rightarrow> jsval" where
  "opt_index0 v = (if nullish v then JUndefined else element0 v)"

subsection \<open>String operations\<close>

text \<open>\<^verbatim>\<open>s.split(c)\<close> for a one-character separator: never an empty array.\<close>

fun split_on :: "char \<Rightarrow> string \<Rightarrow> string list" where
  "split_on c [] = [[]]"
| "split_on c (x # xs) =
     (if x = c then [] # split_on c xs
      else (case split_on c xs of [] \<Rightarrow> [[x]] | l # ls \<Rightarrow> (x # l) # ls))"

definition newline :: char where
  "newline = CHR 0x0A"

text \<open>The white space and line terminators that \<^verbatim>\<open>trim\<close> strips, among the characters
  a \<^typ>\<open>char\<close> can hold: tab, line feed, vertical tab, form feed, carriage return, space
  and no-break space.\<close>

definition js_space :: "char \<Rightarrow> bool" where
  "js_space c = (c \<in> set [CHR 0x09, CHR 0x0A, CHR 0x0B, CHR 0x0C, CHR 0x0D, CHR 0x20, CHR 0xA0])"

definition trim :: "string \<Rightarrow> string" where
  "trim s = rev (dropWhile js_space (rev (dropWhile js_space s)))"

definition startsWith :: "string \<Rightarrow> string \<Rightarrow> bool" where
  "startsWith s p = (take (length p) s = p)"

section \<open>Stream decoders of the chat providers\<close>

text \<open>
  \<^verbatim>\<open>processStream\<close> reads a stream chunk by chunk and yields events: \<^verbatim>\<open>{ delta }\<close> or
  \<^verbatim>\<open>{ done: true }\<close>. A finite stream is the list of its chunks, after which the reader
  reports \<^verbatim>\<open>done\<close>. The generator's output is the list of the events it yields before it
  completes.

  Two platform functions are parameters of the model. \<open>parse\<close> is \<^verbatim>\<open>JSON.parse\<close>:
  \<open>None\<close> where it throws a SyntaxError. \<open>step\<close> is the \<^verbatim>\<open>TextDecoder\<close>, which in
  streaming mode is a state machine over the bytes it is fed: each byte gives some
  characters (none while a multi-byte sequence is incomplete) and the next state.
\<close>

datatype event = Delta jsval | Done

fun decode :: "('d \<Rightarrow> 'b \<Rightarrow> string \<times> 'd) \<Rightarrow> 'd \<Rightarrow> 'b list \<Rightarrow> string \<times> 'd" where
  "decode step d [] = ([], d)"
| "decode step d (b # bs) =
     (case step d b of (s, d') \<Rightarrow> (case decode step d' bs of (t, d'') \<Rightarrow> (s @ t, d'')))"

text \<open>\<^verbatim>\<open>for (const line of lines) { ... }\<close>: the body gives the events it yields and
  whether it returned from the generator; a return ends the loop.\<close>

fun for_lines :: "(string \<Rightarrow> event list \<times> bool) \<Rightarrow> string list \<Rightarrow> event list \<times> bool" where
  "for_lines body [] = ([], False)"
| "for_lines body (l # ls) =
     (case body l of
        (evs, True) \<Rightarrow> (evs, True)
      | (evs, False) \<Rightarrow> (case for_lines body ls of (evs', r) \<Rightarrow> (evs @ evs', r)))"

text \<open>\<^verbatim>\<open>buffer = lines.pop() || ''\<close> and the lines left in the array.\<close>

definition pop_buffer :: "string list \<Rightarrow> string" where
  "pop_buffer lines = (if lines = [] then [] else last lines)"

subsection \<open>OpenAI\<close>

definition openai_try :: "(string \<Rightarrow> jsval option) \<Rightarrow> string \<Rightarrow> exn + jsval" where
  "openai_try parse data =
     (case parse data of
        None \<Rightarrow> Inl SyntaxError
      | Some parsed \<Rightarrow>
          (case js_get parsed ''choices'' of
             Inl e \<Rightarrow> Inl e
           | Inr choices \<Rightarrow>
               (case js_index0 choices of
                  Inl e \<Rightarrow> Inl e
                | Inr choice \<Rightarrow> Inr (opt_get (opt_get choice ''delta'') ''content''))))"

definition openai_line :: "(string \<Rightarrow> jsval option) \<Rightarrow> string \<Rightarrow> event list \<times> bool" where
  "openai_line parse line =
     (if startsWith line ''data: '' then
        (let data = trim (drop 6 line) in
         if data = ''[DONE]'' then ([Done], True)
         else (case openai_try parse data of
                 Inl e \<Rightarrow> ([], False)
               | Inr delta \<Rightarrow> (if truthy delta then [Delta delta] else [], False)))
      else ([], False))"

fun openai_loop ::
  "('d \<Rightarrow> 'b \<Rightarrow> string \<times> 'd) \<Rightarrow> (string \<Rightarrow> jsval option) \<Rightarrow> 'd \<Rightarrow> string \<Rightarrow> 'b list list
     \<Rightarrow> event list" where
  "openai_loop step parse d buffer [] = []"
| "openai_loop step parse d buffer (v # rest) =
     (case decode step d v of (text, d') \<Rightarrow>
        (let lines = split_on newline (buffer @ text) in
         case for_lines (openai_line parse) (butlast lines) of
           (evs, True) \<Rightarrow> evs
         | (evs, False) \<Rightarrow> evs @ openai_loop step parse d' (pop_buffer lines) rest))"

definition openai_processStream ::
  "('d \<Rightarrow> 'b \<Rightarrow> string \<times> 'd) \<Rightarrow> (string \<Rightarrow> jsval option) \<Rightarrow> 'd \<Rightarrow> 'b list list \<Rightarrow> event list" where
  "openai_processStream step parse d0 chunks = openai_loop step parse d0 [] chunks"

subsection \<open>Azure OpenAI\<close>

definition azure_try :: "(string \<Rightarrow> jsval option) \<Rightarrow> string \<Rightarrow> exn + jsval" where
  "azure_try parse data =
     (case parse data of
        None \<Rightarrow> Inl SyntaxError
      | Some parsed \<Rightarrow>
          (case js_get parsed ''choices'' of
             Inl e \<Rightarrow> Inl e
           | Inr choices \<Rightarrow>
               (case js_index0 choices of
                  Inl e \<Rightarrow> Inl e
                | Inr choice \<Rightarrow> Inr (opt_get (opt_get choice ''delta'') ''content''))))"

definition azure_line :: "(string \<Rightarrow> jsval option) \<Rightarrow> string \<Rightarrow> event list \<times> bool" where
  "azure_line parse line =
     (if startsWith line ''data: '' then
        (let data = trim (drop 6 line) in
         if data = ''[DONE]'' then ([Done], True)
         else (case azure_try parse data of
                 Inl e \<Rightarrow> ([], False)
               | Inr delta \<Rightarrow> (if truthy delta then [Delta delta] else [], False)))
      else ([], False))"

fun azure_loop ::
  "('d \<Rightarrow> 'b \<Rightarrow> string \<times> 'd) \<Rightarrow> (string \<Rightarrow> jsval option) \<Rightarrow> 'd \<Rightarrow> string \<Rightarrow> 'b list list
     \<Rightarrow> event list" where
  "azure_loop step parse d buffer [] = []"
| "azure_loop step parse d buffer (v # rest) =
     (case decode step d v of (text, d') \<Rightarrow>
        (let lines = split_on newline (buffer @ text) in
         case for_lines (azure_line parse) (butlast lines) of
           (evs, True) \<Rightarrow> evs
         | (evs, False) \<Rightarrow> evs @ azure_loop step parse d' (pop_buffer lines) rest))"

definition azure_processStream ::
  "('d \<Rightarrow> 'b \<Rightarrow> string \<times> 'd) \<Rightarrow> (string \<Rightarrow> jsval option) \<Rightarrow> 'd \<Rightarrow> 'b list list \<Rightarrow> event list" where
  "azure_processStream step parse d0 chunks = azure_loop step parse d0 [] chunks"

subsection \<open>Gemini\<close>

text \<open>The \<^verbatim>\<open>try\<close> block of a line: the events it yields and whether it returned, or the
  exception that the \<^verbatim>\<open>catch\<close> receives. Every point that can throw comes before the
  first \<^verbatim>\<open>yield\<close>.\<close>

definition gemini_try :: "(string \<Rightarrow> jsval option) \<Rightarrow> string \<Rightarrow> exn + event list \<times> bool" where
  "gemini_try parse trimmed =
     (case parse trimmed of
        None \<Rightarrow> Inl SyntaxError
      | Some parsed \<Rightarrow>
          (case js_get parsed ''candidates'' of
             Inl e \<Rightarrow> Inl e
           | Inr candidates \<Rightarrow>
               (let candidate = opt_index0 candidates;
                    content = opt_get (opt_index0 (opt_get (opt_get candidate ''content'') ''parts'')) ''text'';
                    yielded = (if truthy content then [Delta content] else [])
                in if truthy (opt_get candidate ''finishReason'')
                   then Inr (yielded @ [Done], True)
                   else Inr (yielded, False))))"

definition gemini_line :: "(string \<Rightarrow> jsval option) \<Rightarrow> string \<Rightarrow> event list \<times> bool" where
  "gemini_line parse line =
     (let trimmed = trim line in
      if trimmed = [] then ([], False)
      else (case gemini_try parse trimmed of
              Inl e \<Rightarrow> ([], False)
            | Inr r \<Rightarrow> r))"

fun gemini_loop ::
  "('d \<Rightarrow> 'b \<Rightarrow> string \<times> 'd) \<Rightarrow> (string \<Rightarrow> jsval option) \<Rightarrow> 'd \<Rightarrow> string \<Rightarrow> 'b list list
     \<Rightarrow> event list" where
  "gemini_loop step parse d buffer [] = [Done]"
| "gemini_loop step parse d buffer (v # rest) =
     (case decode step d v of (text, d') \<Rightarrow>
        (let lines = split_on newline (buffer @ text) in
         case for_lines (gemini_line parse) (butlast lines) of
           (evs, True) \<Rightarrow> evs
         | (evs, False) \<Rightarrow> evs @ gemini_loop step parse d' (pop_buffer lines) rest))"

definition gemini_processStream ::
  "('d \<Rightarrow> 'b \<Rightarrow> string \<times> 'd) \<Rightarrow> (string \<Rightarrow> jsval option) \<Rightarrow> 'd \<Rightarrow> 'b list list \<Rightarrow> event list" where
  "gemini_processStream step parse d0 chunks = gemini_loop step parse d0 [] chunks"

subsection \<open>Anthropic\<close>

text \<open>The \<^verbatim>\<open>switch (parsed.type)\<close> sits inside the \<^verbatim>\<open>try\<close>; its \<^verbatim>\<open>error\<close> case throws,
  and the \<^verbatim>\<open>catch\<close> of the same \<^verbatim>\<open>try\<close> receives what it throws.\<close>

definition anthropic_try :: "(string \<Rightarrow> jsval option) \<Rightarrow> string \<Rightarrow> exn + event list \<times> bool" where
  "anthropic_try parse data =
     (case parse data of
        None \<Rightarrow> Inl SyntaxError
      | Some parsed \<Rightarrow>
          (case js_get parsed ''type'' of
             Inl e \<Rightarrow> Inl e
           | Inr ty \<Rightarrow>
               if ty = JStr ''content_block_delta'' then
                 (let text = opt_get (own_property parsed ''delta'') ''text''
                  in Inr (if truthy text then [Delta text] else [], False))
               else if ty = JStr ''message_stop'' then Inr ([Done], True)
               else if ty = JStr ''content_block_stop'' then Inr ([], False)
               else if ty = JStr ''error'' then
                 (let message = opt_get (own_property parsed ''error'') ''message''
                  in Inl (Error (if truthy message then message
                                 else JStr ''Error en stream de Anthropic'')))
               else Inr ([], False)))"

definition anthropic_line :: "(string \<Rightarrow> jsval option) \<Rightarrow> string \<Rightarrow> event list \<times> bool" where
  "anthropic_line parse line =
     (if startsWith line ''data: '' then
        (let data = trim (drop 6 line) in
         if data = ''[DONE]'' then ([Done], True)
         else (case anthropic_try parse data of
                 Inl e \<Rightarrow> ([], False)
               | Inr r \<Rightarrow> r))
      else if startsWith line ''event: '' then ([], False)
      else ([], False))"

fun anthropic_loop ::
  "('d \<Rightarrow> 'b \<Rightarrow> string \<times> 'd) \<Rightarrow> (string \<Rightarrow> jsval option) \<Rightarrow> 'd \<Rightarrow> string \<Rightarrow> 'b list list
     \<Rightarrow> event list" where
  "anthropic_loop step parse d buffer [] = []"
| "anthropic_loop step parse d buffer (v # rest) =
     (case decode step d v of (text, d') \<Rightarrow>
        (let lines = split_on newline (buffer @ text) in
         case for_lines (anthropic_line parse) (butlast lines) of
           (evs, True) \<Rightarrow> evs
         | (evs, False) \<Rightarrow> evs @ anthropic_loop step parse d' (pop_buffer lines) rest))"

definition anthropic_processStream ::
  "('d \<Rightarrow> 'b \<Rightarrow> string \<times> 'd) \<Rightarrow> (string \<Rightarrow> jsval option) \<Rightarrow> 'd \<Rightarrow> 'b list list \<Rightarrow> event list" where
  "anthropic_processStream step parse d0 chunks = anthropic_loop step parse d0 [] chunks"

subsection \<open>Concrete platform functions for closed examples\<close>

text \<open>On bytes below 0x80 the UTF-8 decoder gives the character of the same code and keeps
  no state; the examples feed it such bytes only.\<close>

definition ascii_step :: "unit \<Rightarrow> char \<Rightarrow> string \<times> unit" where
  "ascii_step d b = ([b], d)"

text \<open>\<^verbatim>\<open>JSON.parse\<close> on the payloads of the examples; any other text counts as
  unparsable here.\<close>

definition sample_parse :: "string \<Rightarrow> jsval option" where
  \<open>sample_parse s =
     (if s = ''{"choices":[{"delta":{"content":"Hi"}}]}'' then
        Some (JObj [(''choices'', JArr [JObj [(''delta'', JObj [(''content'', JStr ''Hi'')])]])])
      else if s = ''{"type":"error","error":{"message":"Overloaded"}}'' then
        Some (JObj [(''type'', JStr ''error''), (''error'', JObj [(''message'', JStr ''Overloaded'')])])
      else if s = ''{"type":"content_block_delta","delta":{"text":"late"}}'' then
        Some (JObj [(''type'', JStr ''content_block_delta''), (''delta'', JObj [(''text'', JStr ''late'')])])
      else None)\<close>

section \<open>Message formatting of the providers\<close>

text \<open>A chat message has a role and a content; the messages the front end sends may also
  carry the flag \<^verbatim>\<open>isError\<close> (absent counts as false).\<close>

record message =
  role :: string
  content :: string

record ui_message = message +
  isError :: bool

subsection \<open>Gemini\<close>

text \<open>An entry of Gemini's \<^verbatim>\<open>contents\<close>: \<^verbatim>\<open>{ role, parts: [{ text }] }\<close>. The field
  \<open>g_role\<close> is the entry's \<^verbatim>\<open>role\<close>, and each part is given by its \<^verbatim>\<open>text\<close>.\<close>

record gemini_content =
  g_role :: string
  parts :: "string list"

fun gemini_contents :: "ui_message list \<Rightarrow> gemini_content list" where
  "gemini_contents [] = []"
| "gemini_contents (m # ms) =
     (if isError m then gemini_contents ms
      else if role m = ''system'' then gemini_contents ms
      else \<lparr>g_role = (if role m = ''assistant'' then ''model'' else role m),
            parts = [content m]\<rparr> # gemini_contents ms)"

definition is_system :: "ui_message \<Rightarrow> bool" where
  "is_system m = (role m = ''system'')"

definition gemini_formatMessages :: "ui_message list \<Rightarrow> gemini_content list" where
  "gemini_formatMessages messages =
     (let contents = gemini_contents messages in
      case find is_system messages of
        None \<Rightarrow> contents
      | Some systemMessage \<Rightarrow>
          (case contents of
             [] \<Rightarrow> contents
           | c # cs \<Rightarrow>
               if g_role c = ''user'' then
                 (case parts c of
                    [] \<Rightarrow> contents
                  | originalText # ps \<Rightarrow>
                      c\<lparr>parts := (content systemMessage @ [newline, newline] @ ''Usuario: ''
                                    @ originalText) # ps\<rparr> # cs)
               else contents))"

subsection \<open>Anthropic\<close>

record anthropic_formatted =
  systemPrompt :: "string option"
  conversationMessages :: "message list"

text \<open>The loop over the messages, with its two variables as state.\<close>

fun anthropic_scan :: "string \<Rightarrow> message list \<Rightarrow> ui_message list \<Rightarrow> string \<times> message list" where
  "anthropic_scan sp conv [] = (sp, conv)"
| "anthropic_scan sp conv (m # ms) =
     (if isError m then anthropic_scan sp conv ms
      else if role m = ''system'' then anthropic_scan (content m) conv ms
      else anthropic_scan sp (conv @ [\<lparr>role = role m, content = content m\<rparr>]) ms)"

text \<open>\<^verbatim>\<open>systemPrompt || undefined\<close>: \<open>None\<close> for the empty string.\<close>

definition anthropic_formatMessages :: "ui_message list \<Rightarrow> anthropic_formatted" where
  "anthropic_formatMessages messages =
     (case anthropic_scan [] [] messages of
        (sp, conv) \<Rightarrow>
          \<lparr>systemPrompt = (if sp = [] then None else Some sp), conversationMessages = conv\<rparr>)"

section \<open>Rate limiter\<close>

text \<open>
  \<^verbatim>\<open>requestStore\<close> maps a client key to the array of its request times, in milliseconds.
  The clock (\<^verbatim>\<open>Date.now()\<close>) is an argument of every operation that reads it, and the
  store is passed in and returned.
\<close>

type_synonym store = "string \<Rightarrow> int list option"

record config =
  windowMs :: int
  maxRequests :: int

definition DEFAULT_windowMs :: int where
  "DEFAULT_windowMs = 60 * 1000"

definition chat_config :: config where
  "chat_config = \<lparr>windowMs = 60000, maxRequests = 30\<rparr>"

definition image_config :: config where
  "image_config = \<lparr>windowMs = 300000, maxRequests = 10\<rparr>"

definition cleanupOldRequests :: "int \<Rightarrow> int \<Rightarrow> store \<Rightarrow> store" where
  "cleanupOldRequests window now st =
     (\<lambda>ip. case st ip of
             None \<Rightarrow> None
           | Some requests \<Rightarrow>
               (let recentRequests = filter (\<lambda>timestamp. timestamp > now - window) requests
                in if length recentRequests = 0 then None else Some recentRequests))"

text \<open>The result of \<^verbatim>\<open>checkRateLimit\<close>. \<^verbatim>\<open>Math.min()\<close> of no argument is \<^verbatim>\<open>Infinity\<close>:
  \<open>None\<close> in \<open>resetTime\<close> and \<open>retryAfter\<close>.\<close>

record rate_info =
  isLimited :: bool
  current :: nat
  limit :: int
  remaining :: int
  resetTime :: "int option"
  retryAfter :: "int option"

definition oldest :: "int list \<Rightarrow> int option" where
  "oldest ts = (case ts of [] \<Rightarrow> None | t # rest \<Rightarrow> Some (fold min rest t))"

definition checkRateLimit :: "string \<Rightarrow> config \<Rightarrow> int \<Rightarrow> store \<Rightarrow> rate_info" where
  "checkRateLimit ip cfg now st =
     (let cutoff = now - windowMs cfg;
          requests = (case st ip of None \<Rightarrow> [] | Some r \<Rightarrow> r);
          recentRequests = filter (\<lambda>timestamp. timestamp > cutoff) requests;
          reset = map_option (\<lambda>oldestRequest. oldestRequest + windowMs cfg) (oldest recentRequests)
      in \<lparr>isLimited = (int (length recentRequests) \<ge> maxRequests cfg),
          current = length recentRequests,
          limit = maxRequests cfg,
          remaining = max 0 (maxRequests cfg - int (length recentRequests)),
          resetTime = reset,
          retryAfter = map_option (\<lambda>r. max 0 (- ((now - r) div 1000))) reset\<rparr>)"

text \<open>\<^verbatim>\<open>recordRequest\<close>: \<open>draw\<close> says that \<^verbatim>\<open>Math.random() < 0.1\<close> held, and \<open>now'\<close> is the
  clock as \<^verbatim>\<open>cleanupOldRequests\<close> reads it.\<close>

definition recordRequest :: "string \<Rightarrow> int \<Rightarrow> bool \<Rightarrow> int \<Rightarrow> store \<Rightarrow> store" where
  "recordRequest ip now draw now' st =
     (let requests = (case st ip of None \<Rightarrow> [] | Some r \<Rightarrow> r);
          st' = st(ip \<mapsto> requests @ [now])
      in if draw then cleanupOldRequests DEFAULT_windowMs now' st' else st')"

text \<open>A sequence of recorded requests, of any clients.\<close>

record record_call =
  call_ip :: string
  call_now :: int
  call_draw :: bool
  call_gc_now :: int

fun record_all :: "record_call list \<Rightarrow> store \<Rightarrow> store" where
  "record_all [] st = st"
| "record_all (c # cs) st =
     record_all cs (recordRequest (call_ip c) (call_now c) (call_draw c) (call_gc_now c) st)"

subsection \<open>Client key\<close>

text \<open>\<^verbatim>\<open>a || b\<close> for a header that may be absent: an absent or empty header gives \<open>b\<close>.\<close>

fun or_string :: "string option \<Rightarrow> string \<Rightarrow> string" where
  "or_string None b = b"
| "or_string (Some a) b = (if a = [] then b else a)"

definition getClientIP :: "(string \<Rightarrow> string option) \<Rightarrow> string" where
  "getClientIP headers =
     (let ip = or_string (headers ''x-forwarded-for'')
                 (or_string (headers ''x-real-ip'')
                   (or_string (headers ''cf-connecting-ip'') ''unknown''))
      in case split_on (CHR '','') ip of [] \<Rightarrow> [] | first # _ \<Rightarrow> trim first)"

section \<open>Validation of chat messages\<close>

datatype validation_error =
    NotAnArray
  | NotAnObject nat
  | RoleRequired nat
  | RoleNotValid nat
  | ContentRequired nat
  | ContentTooLong nat

definition validRoles :: "string list" where
  "validRoles = [''system'', ''user'', ''assistant'']"

text \<open>\<^verbatim>\<open>!message || typeof message !== 'object'\<close>: arrays are objects, \<^verbatim>\<open>null\<close> is falsy.\<close>

fun not_an_object :: "jsval \<Rightarrow> bool" where
  "not_an_object (JObj _) = False"
| "not_an_object (JArr _) = False"
| "not_an_object _ = True"

text \<open>\<^verbatim>\<open>!v || typeof v !== 'string'\<close>, and the string otherwise.\<close>

fun nonempty_string :: "jsval \<Rightarrow> string option" where
  "nonempty_string (JStr s) = (if s = [] then None else Some s)"
| "nonempty_string _ = None"

fun validate_from :: "nat \<Rightarrow> jsval list \<Rightarrow> validation_error + message list" where
  "validate_from i [] = Inr []"
| "validate_from i (m # ms) =
     (if not_an_object m then Inl (NotAnObject i)
      else case nonempty_string (own_property m ''role'') of
        None \<Rightarrow> Inl (RoleRequired i)
      | Some r \<Rightarrow>
          if r \<notin> set validRoles then Inl (RoleNotValid i)
          else case nonempty_string (own_property m ''content'') of
            None \<Rightarrow> Inl (ContentRequired i)
          | Some c \<Rightarrow>
              if length c > 10000 then Inl (ContentTooLong i)
              else (case validate_from (Suc i) ms of
                      Inl e \<Rightarrow> Inl e
                    | Inr validated \<Rightarrow> Inr (\<lparr>role = r, content = trim c\<rparr> # validated)))"

definition validateMessages :: "jsval \<Rightarrow> validation_error + message list" where
  "validateMessages messages =
     (case messages of JArr ms \<Rightarrow> validate_from 0 ms | _ \<Rightarrow> Inl NotAnArray)"

text \<open>\<^verbatim>\<open>filterValidMessages\<close> of \<^verbatim>\<open>BaseProvider\<close>, on messages whose content is a string.\<close>

definition filterValidMessages :: "ui_message list \<Rightarrow> ui_message list" where
  "filterValidMessages messages = filter (\<lambda>msg. \<not> isError msg \<and> trim (content msg) \<noteq> []) messages"

section \<open>Provider classes\<close>

text \<open>
  The provider classes of \<^verbatim>\<open>GeminiProvider.js\<close>, \<^verbatim>\<open>AnthropicProvider.js\<close> and
  \<^verbatim>\<open>AzureChatProvider.js\<close> extend the class of \<^verbatim>\<open>BaseProvider.js\<close>. A method call on
  an instance looks the name up in the class, then in the base class, then in
  \<^verbatim>\<open>Object.prototype\<close>; it throws a TypeError when no method is found. The static
  \<^verbatim>\<open>processStream\<close> belongs to the class itself, not to its instances.
\<close>

datatype provider_class = GeminiProvider | AnthropicProvider | AzureChatProvider

definition Object_prototype_methods :: "string list" where
  "Object_prototype_methods =
     [''constructor'', ''hasOwnProperty'', ''isPrototypeOf'', ''propertyIsEnumerable'',
      ''toLocaleString'', ''toString'', ''valueOf'', ''__defineGetter__'', ''__defineSetter__'',
      ''__lookupGetter__'', ''__lookupSetter__'']"

definition BaseProvider_methods :: "string list" where
  "BaseProvider_methods =
     [''constructor'', ''chat'', ''filterValidMessages'', ''formatMessages'', ''getBaseHeaders'',
      ''handleError'', ''createTimeoutController'', ''validateParams'', ''debug'']"

fun class_methods :: "provider_class \<Rightarrow> string list" where
  "class_methods GeminiProvider = [''constructor'', ''chat'', ''formatMessages'', ''validateModel'']"
| "class_methods AnthropicProvider = [''constructor'', ''chat'', ''formatMessages'', ''validateModel'']"
| "class_methods AzureChatProvider = [''constructor'', ''chat'', ''formatMessages'', ''validateModel'']"

definition has_method :: "provider_class \<Rightarrow> string \<Rightarrow> bool" where
  "has_method cls name =
     (name \<in> set (class_methods cls) \<or> name \<in> set BaseProvider_methods
      \<or> name \<in> set Object_prototype_methods)"

text \<open>The fields that the constructors set on an instance; none holds a function.\<close>

fun instance_fields :: "provider_class \<Rightarrow> string list" where
  "instance_fields GeminiProvider = [''config'', ''timeoutMs'', ''apiKey'', ''baseURL'']"
| "instance_fields AnthropicProvider = [''config'', ''timeoutMs'', ''apiKey'', ''baseURL'']"
| "instance_fields AzureChatProvider =
     [''config'', ''timeoutMs'', ''apiKey'', ''endpoint'', ''apiVersion'']"

section \<open>Event order of the stream decoders\<close>

text \<open>A well terminated event sequence: some \<open>Delta\<close> events, then one \<open>Done\<close>, the
  last event.\<close>

definition well_terminated :: "event list \<Rightarrow> bool" where
  "well_terminated evs = (evs \<noteq> [] \<and> last evs = Done \<and> Done \<notin> set (butlast evs))"

text \<open>What a line may do: return after a well terminated sequence, or go on without
  having yielded \<open>Done\<close>.\<close>

definition line_outcome_ok :: "event list \<times> bool \<Rightarrow> bool" where
  "line_outcome_ok out = (if snd out then well_terminated (fst out) else Done \<notin> set (fst out))"

section \<open>Notions used to state the properties\<close>

text \<open>The role under which Gemini receives a message, and the messages a provider passes
  on: those that are neither flagged as errors nor system messages.\<close>

definition gemini_role :: "string \<Rightarrow> string" where
  "gemini_role r = (if r = ''assistant'' then ''model'' else r)"

definition passed_on :: "ui_message \<Rightarrow> bool" where
  "passed_on m = (\<not> isError m \<and> role m \<noteq> ''system'')"

text \<open>The system messages that Anthropic's loop assigns to \<^verbatim>\<open>systemPrompt\<close>.\<close>

definition hoisted :: "ui_message \<Rightarrow> bool" where
  "hoisted m = (\<not> isError m \<and> role m = ''system'')"

text \<open>The hoisting law in the words of the specification: the system field is the content
  of the first system message, and the conversation is every non-system message.\<close>

definition claimed_system_field :: "ui_message list \<Rightarrow> string option" where
  "claimed_system_field ms = map_option content (find is_system ms)"

definition claimed_conversation :: "ui_message list \<Rightarrow> message list" where
  "claimed_conversation ms = map message.truncate (filter (\<lambda>m. \<not> is_system m) ms)"

text \<open>The first comma-separated entry of a header value, without the white space around
  it.\<close>

definition first_entry :: "string \<Rightarrow> string" where
  "first_entry v = trim (takeWhile (\<lambda>c. c \<noteq> CHR '','') v)"

text \<open>The request times of a client, and those inside the window that starts at
  \<open>cutoff\<close>.\<close>

definition requests_of :: "store \<Rightarrow> string \<Rightarrow> int list" where
  "requests_of st ip = (case st ip of None \<Rightarrow> [] | Some r \<Rightarrow> r)"

definition recent :: "store \<Rightarrow> string \<Rightarrow> int \<Rightarrow> int list" where
  "recent st ip cutoff = filter (\<lambda>timestamp. timestamp > cutoff) (requests_of st ip)"

text \<open>Ten image requests of one client: nine at time 0 and one 100 seconds later, whose
  random draw is \<open>draw\<close>.\<close>

definition ten_image_calls :: "bool \<Rightarrow> record_call list" where
  "ten_image_calls draw =
     replicate 9 \<lparr>call_ip = ''k'', call_now = 0, call_draw = False, call_gc_now = 0\<rparr>
     @ [\<lparr>call_ip = ''k'', call_now = 100000, call_draw = draw, call_gc_now = 100000\<rparr>]"

section \<open>Proofs: event order\<close>

lemma well_terminated_append:
  "Done \<notin> set xs \<Longrightarrow> well_terminated ys \<Longrightarrow> well_terminated (xs @ ys)"
  by (auto simp: well_terminated_def butlast_append)

lemma butlast_append_notin:
  "Done \<notin> set xs \<Longrightarrow> Done \<notin> set (butlast ys) \<Longrightarrow> Done \<notin> set (butlast (xs @ ys))"
  by (auto simp: butlast_append dest: in_set_butlastD)

lemma for_lines_ok:
  assumes "\<And>l. line_outcome_ok (body l)"
  shows "line_outcome_ok (for_lines body ls)"
proof (induction ls)
  case Nil
  show ?case by (simp add: line_outcome_ok_def)
next
  case (Cons l ls)
  obtain evs r where b: "body l = (evs, r)" by (cases "body l")
  obtain evs' r' where f: "for_lines body ls = (evs', r')" by (cases "for_lines body ls")
  from assms[of l] b have 1: "if r then well_terminated evs else Done \<notin> set evs"
    by (auto simp: line_outcome_ok_def split: if_splits)
  from Cons.IH f have 2: "if r' then well_terminated evs' else Done \<notin> set evs'"
    by (auto simp: line_outcome_ok_def split: if_splits)
  show ?case
  proof (cases r)
    case True
    with b 1 show ?thesis by (simp add: line_outcome_ok_def)
  next
    case False
    with b f 1 2 show ?thesis
      by (auto simp: line_outcome_ok_def well_terminated_append)
  qed
qed

lemma openai_line_ok: "line_outcome_ok (openai_line parse l)"
  by (auto simp: line_outcome_ok_def openai_line_def well_terminated_def Let_def split: sum.splits)

lemma azure_line_ok: "line_outcome_ok (azure_line parse l)"
  by (auto simp: line_outcome_ok_def azure_line_def well_terminated_def Let_def split: sum.splits)

lemma gemini_line_ok: "line_outcome_ok (gemini_line parse l)"
  by (auto simp: line_outcome_ok_def gemini_line_def gemini_try_def well_terminated_def Let_def
           split: sum.splits option.splits if_splits)

lemma anthropic_line_ok: "line_outcome_ok (anthropic_line parse l)"
  by (auto simp: line_outcome_ok_def anthropic_line_def anthropic_try_def well_terminated_def
           Let_def split: sum.splits option.splits if_splits)

text \<open>The loop over the reads keeps the order: a line that returns ends the sequence, and
  the reads that follow a line that goes on append to a sequence without \<open>Done\<close>.\<close>

lemma read_step_prefix:
  assumes "line_outcome_ok (evs, r)"
    and "Done \<notin> set (butlast later)"
  shows "Done \<notin> set (butlast (if r then evs else evs @ later))"
  using assms
  by (auto simp: line_outcome_ok_def well_terminated_def butlast_append_notin split: if_splits)

lemma openai_loop_prefix: "Done \<notin> set (butlast (openai_loop step parse d buffer chunks))"
proof (induction chunks arbitrary: d buffer)
  case Nil
  show ?case by simp
next
  case (Cons v rest)
  obtain decoded d' where dv: "decode step d v = (decoded, d')" by (cases "decode step d v")
  let ?lines = "split_on newline (buffer @ decoded)"
  obtain evs r where fl: "for_lines (openai_line parse) (butlast ?lines) = (evs, r)"
    by (cases "for_lines (openai_line parse) (butlast ?lines)")
  have ok: "line_outcome_ok (evs, r)"
    using for_lines_ok[of "openai_line parse" "butlast ?lines", OF openai_line_ok] fl by simp
  from read_step_prefix[OF ok Cons.IH[of d' "pop_buffer ?lines"]] dv fl
  show ?case by (cases r) simp_all
qed

lemma azure_loop_prefix: "Done \<notin> set (butlast (azure_loop step parse d buffer chunks))"
proof (induction chunks arbitrary: d buffer)
  case Nil
  show ?case by simp
next
  case (Cons v rest)
  obtain decoded d' where dv: "decode step d v = (decoded, d')" by (cases "decode step d v")
  let ?lines = "split_on newline (buffer @ decoded)"
  obtain evs r where fl: "for_lines (azure_line parse) (butlast ?lines) = (evs, r)"
    by (cases "for_lines (azure_line parse) (butlast ?lines)")
  have ok: "line_outcome_ok (evs, r)"
    using for_lines_ok[of "azure_line parse" "butlast ?lines", OF azure_line_ok] fl by simp
  from read_step_prefix[OF ok Cons.IH[of d' "pop_buffer ?lines"]] dv fl
  show ?case by (cases r) simp_all
qed

lemma anthropic_loop_prefix: "Done \<notin> set (butlast (anthropic_loop step parse d buffer chunks))"
proof (induction chunks arbitrary: d buffer)
  case Nil
  show ?case by simp
next
  case (Cons v rest)
  obtain decoded d' where dv: "decode step d v = (decoded, d')" by (cases "decode step d v")
  let ?lines = "split_on newline (buffer @ decoded)"
  obtain evs r where fl: "for_lines (anthropic_line parse) (butlast ?lines) = (evs, r)"
    by (cases "for_lines (anthropic_line parse) (butlast ?lines)")
  have ok: "line_outcome_ok (evs, r)"
    using for_lines_ok[of "anthropic_line parse" "butlast ?lines", OF anthropic_line_ok] fl by simp
  from read_step_prefix[OF ok Cons.IH[of d' "pop_buffer ?lines"]] dv fl
  show ?case by (cases r) simp_all
qed

text \<open>Gemini yields \<open>Done\<close> when the reader reports the end of the stream, so its
  sequence is well terminated on every finite stream.\<close>

lemma gemini_loop_terminated: "well_terminated (gemini_loop step parse d buffer chunks)"
proof (induction chunks arbitrary: d buffer)
  case Nil
  show ?case by (simp add: well_terminated_def)
next
  case (Cons v rest)
  obtain decoded d' where dv: "decode step d v = (decoded, d')" by (cases "decode step d v")
  let ?lines = "split_on newline (buffer @ decoded)"
  obtain evs r where fl: "for_lines (gemini_line parse) (butlast ?lines) = (evs, r)"
    by (cases "for_lines (gemini_line parse) (butlast ?lines)")
  have ok: "if r then well_terminated evs else Done \<notin> set evs"
    using for_lines_ok[of "gemini_line parse" "butlast ?lines", OF gemini_line_ok] fl
    by (auto simp: line_outcome_ok_def split: if_splits)
  show ?case
  proof (cases r)
    case True
    with dv fl ok show ?thesis by simp
  next
    case False
    with dv fl ok Cons.IH[of d' "pop_buffer ?lines"] show ?thesis
      by (simp add: well_terminated_append)
  qed
qed

lemma gemini_processStream_terminated:
  "well_terminated (gemini_processStream step parse d0 chunks)"
  by (simp add: gemini_processStream_def gemini_loop_terminated)

lemma processStream_nothing_after_Done:
  "Done \<notin> set (butlast (openai_processStream step parse d0 chunks))"
  "Done \<notin> set (butlast (azure_processStream step parse d0 chunks))"
  "Done \<notin> set (butlast (anthropic_processStream step parse d0 chunks))"
  by (simp_all add: openai_processStream_def azure_processStream_def anthropic_processStream_def
        openai_loop_prefix azure_loop_prefix anthropic_loop_prefix)

text \<open>At the end of a stream that held no chunk, only Gemini has yielded an event.\<close>

lemma stream_end_without_marker:
  "openai_processStream step parse d0 [] = []"
  "azure_processStream step parse d0 [] = []"
  "anthropic_processStream step parse d0 [] = []"
  "gemini_processStream step parse d0 [] = [Done]"
  by (simp_all add: openai_processStream_def azure_processStream_def
        anthropic_processStream_def gemini_processStream_def)

text \<open>
  Claim C1. Every decoder is claimed to yield some content events and then exactly one
  terminal event, also when the stream ends without the vendor's end marker. The OpenAI
  decoder leaves its loop with \<^verbatim>\<open>break\<close> when the reader reports the end: on a stream
  of one content line and no \<^verbatim>\<open>[DONE]\<close> line it yields the content event and no terminal
  event. (The Azure and Anthropic decoders end the same way; Gemini's yields \<open>Done\<close>.)
\<close>

theorem C1_openai_stream_end_without_terminal:
  \<open>openai_processStream ascii_step sample_parse ()
      [''data: {"choices":[{"delta":{"content":"Hi"}}]}'' @ [newline]] = [Delta (JStr ''Hi'')]
   \<and> \<not> well_terminated (openai_processStream ascii_step sample_parse ()
      [''data: {"choices":[{"delta":{"content":"Hi"}}]}'' @ [newline]])\<close>
proof -
  have run: \<open>openai_processStream ascii_step sample_parse ()
      [''data: {"choices":[{"delta":{"content":"Hi"}}]}'' @ [newline]] = [Delta (JStr ''Hi'')]\<close>
    by code_simp
  show ?thesis unfolding run by (simp add: well_terminated_def)
qed

text \<open>Whatever \<^verbatim>\<open>JSON.parse\<close> is: a \<^verbatim>\<open>data: \<close> line whose payload has type \<^verbatim>\<open>error\<close>
  yields nothing and lets the loop go on.\<close>

lemma anthropic_error_line_continues:
  assumes "startsWith line ''data: ''"
    and "trim (drop 6 line) \<noteq> ''[DONE]''"
    and "parse (trim (drop 6 line)) = Some parsed"
    and "js_get parsed ''type'' = Inr (JStr ''error'')"
  shows "anthropic_line parse line = ([], False)"
  using assms by (simp add: anthropic_line_def anthropic_try_def Let_def)

text \<open>
  Claim C2. A \<^verbatim>\<open>data: \<close> line whose JSON has type \<^verbatim>\<open>error\<close> is claimed to end the
  Anthropic sequence with an error. The \<^verbatim>\<open>throw\<close> of that case is inside the \<^verbatim>\<open>try\<close>
  whose \<^verbatim>\<open>catch\<close> continues with the next line: the error line yields nothing and the
  content line after it is decoded.
\<close>

theorem C2_anthropic_error_line_skipped:
  \<open>anthropic_try sample_parse ''{"type":"error","error":{"message":"Overloaded"}}''
      = Inl (Error (JStr ''Overloaded''))
   \<and> anthropic_processStream ascii_step sample_parse ()
      [''data: {"type":"error","error":{"message":"Overloaded"}}'' @ [newline] @
       ''data: {"type":"content_block_delta","delta":{"text":"late"}}'' @ [newline]]
      = [Delta (JStr ''late'')]\<close>
proof -
  have thrown: \<open>anthropic_try sample_parse ''{"type":"error","error":{"message":"Overloaded"}}''
      = Inl (Error (JStr ''Overloaded''))\<close>
    by code_simp
  have run: \<open>anthropic_processStream ascii_step sample_parse ()
      [''data: {"type":"error","error":{"message":"Overloaded"}}'' @ [newline] @
       ''data: {"type":"content_block_delta","delta":{"text":"late"}}'' @ [newline]]
      = [Delta (JStr ''late'')]\<close>
    by code_simp
  from thrown run show ?thesis by (rule conjI)
qed

section \<open>Chunk boundaries\<close>

lemma split_on_nonempty: "split_on c s \<noteq> []"
  by (induction s) (auto split: list.splits)

lemma decode_append:
  "decode step d (a @ b) =
     (case decode step d a of (s, d') \<Rightarrow> (case decode step d' b of (t, d'') \<Rightarrow> (s @ t, d'')))"
  by (induction a arbitrary: d) (auto split: prod.splits)

text \<open>Splitting a text that continues: the complete lines stay, and the held back last
  piece is split together with what follows.\<close>

lemma split_on_append:
  "split_on c (xs @ ys) = butlast (split_on c xs) @ split_on c (last (split_on c xs) @ ys)"
proof (induction xs)
  case Nil
  show ?case by simp
next
  case (Cons x xs)
  show ?case
  proof (cases "x = c")
    case True
    with Cons split_on_nonempty[of c xs] show ?thesis by simp
  next
    case False
    obtain l ls where s: "split_on c xs = l # ls"
      using split_on_nonempty[of c xs] by (cases "split_on c xs") auto
    show ?thesis
    proof (cases ls)
      case Nil
      with s False Cons show ?thesis
        by (simp split: list.splits)
    next
      case (Cons l' ls')
      with s False Cons.IH show ?thesis by simp
    qed
  qed
qed

lemma for_lines_append:
  "for_lines body (xs @ ys) =
     (case for_lines body xs of
        (evs, True) \<Rightarrow> (evs, True)
      | (evs, False) \<Rightarrow> (case for_lines body ys of (evs', r) \<Rightarrow> (evs @ evs', r)))"
  by (induction xs) (auto split: prod.splits bool.splits)

text \<open>
  Claim C6. Feeding the OpenAI decoder a byte sequence in two chunks, split at any
  position, yields the same events as feeding it in one chunk: for every decoder state
  machine, every \<^verbatim>\<open>JSON.parse\<close> and all bytes \<open>a\<close> and \<open>b\<close>.
\<close>

theorem C6_openai_chunk_split_invariant:
  "openai_processStream step parse d [a, b] = openai_processStream step parse d [a @ b]"
proof -
  obtain s d1 where da: "decode step d a = (s, d1)" by (cases "decode step d a")
  obtain t d2 where db: "decode step d1 b = (t, d2)" by (cases "decode step d1 b")
  have dab: "decode step d (a @ b) = (s @ t, d2)"
    by (simp add: decode_append da db)
  let ?la = "split_on newline s"
  let ?lb = "split_on newline (pop_buffer ?la @ t)"
  have ne: "?la \<noteq> []" "?lb \<noteq> []" by (rule split_on_nonempty)+
  have lines: "butlast (split_on newline (s @ t)) = butlast ?la @ butlast ?lb"
    using ne by (simp add: split_on_append[of newline s t] pop_buffer_def butlast_append)
  obtain e1 r1 where f1: "for_lines (openai_line parse) (butlast ?la) = (e1, r1)"
    by (cases "for_lines (openai_line parse) (butlast ?la)")
  obtain e2 r2 where f2: "for_lines (openai_line parse) (butlast ?lb) = (e2, r2)"
    by (cases "for_lines (openai_line parse) (butlast ?lb)")
  show ?thesis
    by (cases r1; cases r2)
       (simp_all add: openai_processStream_def da db dab lines for_lines_append f1 f2)
qed

section \<open>Validated messages\<close>

text \<open>The roles of an accepted array are valid ones.\<close>

lemma validate_from_roles:
  "validate_from i ms = Inr validated \<Longrightarrow> \<forall>m \<in> set validated. role m \<in> set validRoles"
proof (induction ms arbitrary: i validated)
  case Nil
  then show ?case by simp
next
  case (Cons m ms)
  then show ?case
    by (auto split: if_splits option.splits sum.splits)
qed

lemma validateMessages_roles:
  "validateMessages messages = Inr validated \<Longrightarrow> \<forall>m \<in> set validated. role m \<in> set validRoles"
  by (cases messages) (auto simp: validateMessages_def dest: validate_from_roles)

text \<open>
  Claim C7. An accepted array is claimed to hold only messages whose trimmed content is
  not empty. \<^verbatim>\<open>validateMessages\<close> tests the content before it trims it: a content of one
  space is accepted and stored as the empty string.
\<close>

theorem C7_blank_content_accepted:
  "validateMessages (JArr [JObj [(''role'', JStr ''user''), (''content'', JStr '' '')]])
     = Inr [\<lparr>role = ''user'', content = []\<rparr>]"
  by code_simp

section \<open>The configuration check\<close>

text \<open>
  Claim C8. Every provider is claimed to have an \<^verbatim>\<open>isConfigured\<close> method that returns a
  boolean computed from its credentials, for the chat handler to call. No provider class,
  nor the base class, nor \<^verbatim>\<open>Object.prototype\<close> defines a method of that name, and no
  constructor sets a field of that name: the call \<^verbatim>\<open>provider.isConfigured()\<close> finds no
  method on an instance of any of the three classes.
\<close>

theorem C8_isConfigured_not_defined:
  "\<not> has_method cls ''isConfigured'' \<and> ''isConfigured'' \<notin> set (instance_fields cls)"
  by (cases cls)
     (simp_all add: has_method_def BaseProvider_methods_def Object_prototype_methods_def)

section \<open>Message formatting\<close>

lemma gemini_contents_roles:
  "map g_role (gemini_contents ms) = map (\<lambda>m. gemini_role (role m)) (filter passed_on ms)"
  by (induction ms) (simp_all add: gemini_role_def passed_on_def)

text \<open>Folding the system prompt into the first entry changes its text only.\<close>

lemma gemini_formatMessages_roles:
  "map g_role (gemini_formatMessages ms) = map g_role (gemini_contents ms)"
  by (simp add: gemini_formatMessages_def Let_def split: option.splits list.splits)

text \<open>
  Claim C3. For every array of messages, no entry of Gemini's \<^verbatim>\<open>formatMessages\<close> has the
  role \<^verbatim>\<open>system\<close> (nor \<^verbatim>\<open>assistant\<close>), and the roles of the entries are those of the
  messages passed on, with \<^verbatim>\<open>assistant\<close> renamed to \<^verbatim>\<open>model\<close>. For a system message
  \<open>X\<close> followed by a user message \<open>Y\<close> the result is one entry of role \<^verbatim>\<open>user\<close> whose
  text is \<open>X\<close>, a separator and \<open>Y\<close>, so it contains both.
\<close>

theorem C3_gemini_formatMessages:
  "(\<forall>c \<in> set (gemini_formatMessages ms). g_role c \<noteq> ''system'' \<and> g_role c \<noteq> ''assistant'')
   \<and> map g_role (gemini_formatMessages ms) = map (\<lambda>m. gemini_role (role m)) (filter passed_on ms)
   \<and> gemini_formatMessages
        [\<lparr>role = ''system'', content = X, isError = False\<rparr>,
         \<lparr>role = ''user'', content = Y, isError = False\<rparr>]
      = [\<lparr>g_role = ''user'', parts = [X @ [newline, newline] @ ''Usuario: '' @ Y]\<rparr>]"
proof -
  have roles: "map g_role (gemini_formatMessages ms)
      = map (\<lambda>m. gemini_role (role m)) (filter passed_on ms)"
    by (simp add: gemini_formatMessages_roles gemini_contents_roles)
  have "g_role c \<noteq> ''system'' \<and> g_role c \<noteq> ''assistant''"
    if "c \<in> set (gemini_formatMessages ms)" for c
  proof -
    from that have "g_role c \<in> set (map g_role (gemini_formatMessages ms))" by simp
    then obtain m where "passed_on m" "g_role c = gemini_role (role m)"
      unfolding roles by auto
    then show ?thesis by (auto simp: passed_on_def gemini_role_def)
  qed
  moreover have "gemini_formatMessages
        [\<lparr>role = ''system'', content = X, isError = False\<rparr>,
         \<lparr>role = ''user'', content = Y, isError = False\<rparr>]
      = [\<lparr>g_role = ''user'', parts = [X @ [newline, newline] @ ''Usuario: '' @ Y]\<rparr>]"
    by (simp add: gemini_formatMessages_def is_system_def)
  ultimately show ?thesis using roles by blast
qed

text \<open>The theorem at a conversation of a system, a user and an assistant message.\<close>

theorem C3_gemini_formatMessages_witness:
  "\<lparr>g_role = ''model'', parts = [''Hello'']\<rparr> \<in> set (gemini_formatMessages
        [\<lparr>role = ''system'', content = ''Be brief'', isError = False\<rparr>,
         \<lparr>role = ''user'', content = ''Hi'', isError = False\<rparr>,
         \<lparr>role = ''assistant'', content = ''Hello'', isError = False\<rparr>])
   \<and> g_role \<lparr>g_role = ''model'', parts = [''Hello'']\<rparr> \<noteq> ''system''
   \<and> map g_role (gemini_formatMessages
        [\<lparr>role = ''system'', content = ''Be brief'', isError = False\<rparr>,
         \<lparr>role = ''user'', content = ''Hi'', isError = False\<rparr>,
         \<lparr>role = ''assistant'', content = ''Hello'', isError = False\<rparr>]) = [''user'', ''model'']"
proof -
  let ?ms = "[\<lparr>role = ''system'', content = ''Be brief'', isError = False\<rparr>,
              \<lparr>role = ''user'', content = ''Hi'', isError = False\<rparr>,
              \<lparr>role = ''assistant'', content = ''Hello'', isError = False\<rparr>]"
  have member: "\<lparr>g_role = ''model'', parts = [''Hello'']\<rparr> \<in> set (gemini_formatMessages ?ms)"
    by (simp add: gemini_formatMessages_def is_system_def)
  from C3_gemini_formatMessages[of ?ms] member show ?thesis
    by (simp add: passed_on_def gemini_role_def)
qed

lemma anthropic_scan_eq:
  "anthropic_scan sp conv ms =
     ((case filter hoisted ms of [] \<Rightarrow> sp | x # xs \<Rightarrow> content (last (x # xs))),
      conv @ map message.truncate (filter passed_on ms))"
proof (induction ms arbitrary: sp conv)
  case Nil
  show ?case by simp
next
  case (Cons m ms)
  show ?case
    by (simp add: Cons.IH hoisted_def passed_on_def message.truncate_def split: list.splits)
qed

text \<open>
  Claim C4, as the code has it. For every array of messages, the system field of
  Anthropic's \<^verbatim>\<open>formatMessages\<close> is the content of the last system message that is not
  flagged as an error, and is absent when there is none or when that content is empty;
  the conversation is the messages that are neither system messages nor flagged as
  errors, in order, each with its role and content. For a system message with a non-empty
  content \<open>X\<close> followed by a user message \<open>Y\<close>, the system field is \<open>X\<close> and the
  conversation is the user message \<open>Y\<close> alone.
\<close>

theorem C4_anthropic_formatMessages:
  "systemPrompt (anthropic_formatMessages ms) =
     (case filter hoisted ms of
        [] \<Rightarrow> None
      | x # xs \<Rightarrow> if content (last (x # xs)) = [] then None else Some (content (last (x # xs))))
   \<and> conversationMessages (anthropic_formatMessages ms) = map message.truncate (filter passed_on ms)
   \<and> (X \<noteq> [] \<longrightarrow>
        anthropic_formatMessages
          [\<lparr>role = ''system'', content = X, isError = False\<rparr>,
           \<lparr>role = ''user'', content = Y, isError = False\<rparr>]
        = \<lparr>systemPrompt = Some X, conversationMessages = [\<lparr>role = ''user'', content = Y\<rparr>]\<rparr>)"
  by (simp add: anthropic_formatMessages_def anthropic_scan_eq hoisted_def passed_on_def
        message.truncate_def split: list.splits)

theorem C4_anthropic_formatMessages_witness:
  "''Be brief'' \<noteq> []
   \<and> anthropic_formatMessages
        [\<lparr>role = ''system'', content = ''Be brief'', isError = False\<rparr>,
         \<lparr>role = ''user'', content = ''Hi'', isError = False\<rparr>]
      = \<lparr>systemPrompt = Some ''Be brief'',
         conversationMessages = [\<lparr>role = ''user'', content = ''Hi''\<rparr>]\<rparr>"
  using C4_anthropic_formatMessages
    [of "[\<lparr>role = ''system'', content = ''Be brief'', isError = False\<rparr>,
          \<lparr>role = ''user'', content = ''Hi'', isError = False\<rparr>]" "''Be brief''" "''Hi''"]
  by simp

text \<open>
  Claim C4 as stated fails in three places: of two system messages the second one is
  hoisted, not the first; a non-system message flagged as an error is not returned; and
  an empty system content gives no system field.
\<close>

theorem C4_first_system_counterexample:
  "systemPrompt (anthropic_formatMessages
      [\<lparr>role = ''system'', content = ''A'', isError = False\<rparr>,
       \<lparr>role = ''system'', content = ''B'', isError = False\<rparr>,
       \<lparr>role = ''user'', content = ''Y'', isError = False\<rparr>])
     \<noteq> claimed_system_field
      [\<lparr>role = ''system'', content = ''A'', isError = False\<rparr>,
       \<lparr>role = ''system'', content = ''B'', isError = False\<rparr>,
       \<lparr>role = ''user'', content = ''Y'', isError = False\<rparr>]
   \<and> conversationMessages (anthropic_formatMessages
      [\<lparr>role = ''user'', content = ''Y'', isError = True\<rparr>])
     \<noteq> claimed_conversation [\<lparr>role = ''user'', content = ''Y'', isError = True\<rparr>]
   \<and> systemPrompt (anthropic_formatMessages
      [\<lparr>role = ''system'', content = [], isError = False\<rparr>,
       \<lparr>role = ''user'', content = ''Y'', isError = False\<rparr>])
     \<noteq> claimed_system_field
      [\<lparr>role = ''system'', content = [], isError = False\<rparr>,
       \<lparr>role = ''user'', content = ''Y'', isError = False\<rparr>]"
  by (simp add: anthropic_formatMessages_def claimed_system_field_def claimed_conversation_def
        is_system_def message.truncate_def)

section \<open>Rate limiting\<close>

lemma checkRateLimit_recent:
  "isLimited (checkRateLimit ip cfg now st)
     = (int (length (recent st ip (now - windowMs cfg))) \<ge> maxRequests cfg)"
  by (simp add: checkRateLimit_def recent_def requests_of_def Let_def)

lemma filter_filter_cutoff:
  "c \<le> lo \<Longrightarrow> filter (\<lambda>x. x > lo) (filter (\<lambda>x. x > c) xs) = filter (\<lambda>x. x > (lo::int)) xs"
  by (induction xs) auto

text \<open>A cleanup whose cutoff is not after the cutoff of a check removes nothing that the
  check counts.\<close>

lemma recent_cleanup:
  assumes "now' - window \<le> lo"
  shows "recent (cleanupOldRequests window now' st) ip lo = recent st ip lo"
proof (cases "st ip")
  case None
  then show ?thesis by (simp add: recent_def requests_of_def cleanupOldRequests_def)
next
  case (Some r)
  have f: "filter (\<lambda>x. x > lo) (filter (\<lambda>x. x > now' - window) r) = filter (\<lambda>x. x > lo) r"
    using assms by (rule filter_filter_cutoff)
  show ?thesis
  proof (cases "filter (\<lambda>x. x > now' - window) r = []")
    case True
    with f have "filter (\<lambda>x. x > lo) r = []" by simp
    with True Some show ?thesis
      by (simp add: recent_def requests_of_def cleanupOldRequests_def)
  next
    case False
    with f Some show ?thesis
      by (simp add: recent_def requests_of_def cleanupOldRequests_def)
  qed
qed

lemma cleanup_invisible:
  assumes "now' - window \<le> now - windowMs cfg"
  shows "checkRateLimit ip cfg now (cleanupOldRequests window now' st) = checkRateLimit ip cfg now st"
proof -
  have "filter (\<lambda>timestamp. timestamp > now - windowMs cfg)
          (case cleanupOldRequests window now' st ip of None \<Rightarrow> [] | Some r \<Rightarrow> r)
      = filter (\<lambda>timestamp. timestamp > now - windowMs cfg)
          (case st ip of None \<Rightarrow> [] | Some r \<Rightarrow> r)"
    using recent_cleanup[OF assms, of st ip] by (simp add: recent_def requests_of_def)
  then show ?thesis by (simp add: checkRateLimit_def Let_def)
qed

text \<open>With the window of the chat endpoint, which is the cleanup's own window, a cleanup
  that ran before a check does not change the check's result.\<close>

lemma chat_cleanup_invisible:
  "now' \<le> now \<Longrightarrow>
     checkRateLimit ip chat_config now (cleanupOldRequests DEFAULT_windowMs now' st)
       = checkRateLimit ip chat_config now st"
  by (rule cleanup_invisible) (simp add: chat_config_def DEFAULT_windowMs_def)

lemma recent_record:
  assumes "draw \<longrightarrow> now' - DEFAULT_windowMs \<le> lo"
  shows "recent (recordRequest ip now draw now' st) k lo =
           recent st k lo @ (if ip = k \<and> now > lo then [now] else [])"
proof -
  have plain: "recent (st(ip \<mapsto> requests_of st ip @ [now])) k lo =
           recent st k lo @ (if ip = k \<and> now > lo then [now] else [])"
    by (simp add: recent_def requests_of_def)
  show ?thesis
  proof (cases draw)
    case True
    with assms have "now' - DEFAULT_windowMs \<le> lo" by simp
    from recent_cleanup[OF this] plain True show ?thesis
      by (simp add: recordRequest_def Let_def requests_of_def)
  next
    case False
    with plain show ?thesis by (simp add: recordRequest_def Let_def requests_of_def)
  qed
qed

lemma recent_record_all:
  assumes "\<forall>c \<in> set calls. call_draw c \<longrightarrow> call_gc_now c - DEFAULT_windowMs \<le> lo"
  shows "length (recent (record_all calls st) k lo) =
           length (recent st k lo) + length (filter (\<lambda>c. call_ip c = k \<and> call_now c > lo) calls)"
  using assms
proof (induction calls arbitrary: st)
  case Nil
  show ?case by simp
next
  case (Cons c cs)
  from Cons.prems have d: "call_draw c \<longrightarrow> call_gc_now c - DEFAULT_windowMs \<le> lo"
    and rest: "\<forall>c \<in> set cs. call_draw c \<longrightarrow> call_gc_now c - DEFAULT_windowMs \<le> lo"
    by simp_all
  show ?case
    by (simp add: Cons.IH[OF rest] recent_record[OF d])
qed

text \<open>
  What holds of the limiter. First: after a sequence of recorded requests of which
  \<open>maxRequests\<close> are of client \<open>k\<close>, all of these less than \<open>windowMs\<close> before the time
  \<open>now\<close> of the next check, the check of \<open>k\<close> at \<open>now\<close> is limited, as long as no
  recorded request started a cleanup whose cutoff lies after the cutoff of the check.
  Second: with a limit of at least 1, a check at a time when no recorded time of \<open>k\<close> is
  inside the window is not limited.
\<close>

lemma limited_after_max_requests:
  assumes "\<forall>c \<in> set calls. call_ip c = k \<longrightarrow> now - windowMs cfg < call_now c"
    and "int (length (filter (\<lambda>c. call_ip c = k) calls)) = maxRequests cfg"
    and "\<forall>c \<in> set calls. call_draw c \<longrightarrow> call_gc_now c - DEFAULT_windowMs \<le> now - windowMs cfg"
  shows "isLimited (checkRateLimit k cfg now (record_all calls st))"
proof -
  let ?lo = "now - windowMs cfg"
  from assms(1) have same: "filter (\<lambda>c. call_ip c = k \<and> call_now c > ?lo) calls
      = filter (\<lambda>c. call_ip c = k) calls"
    by (intro filter_cong) auto
  from assms(2) have "maxRequests cfg \<le> int (length (recent (record_all calls st) k ?lo))"
    by (simp add: recent_record_all[OF assms(3)] same)
  then show ?thesis
    by (simp add: checkRateLimit_recent)
qed

lemma not_limited_outside_window:
  assumes "1 \<le> maxRequests cfg"
    and "\<forall>t \<in> set (requests_of st k). t \<le> now - windowMs cfg"
  shows "\<not> isLimited (checkRateLimit k cfg now st)"
proof -
  from assms(2) have "recent st k (now - windowMs cfg) = []"
    by (auto simp: recent_def filter_empty_conv)
  with assms(1) show ?thesis
    by (simp add: checkRateLimit_recent)
qed

text \<open>
  Claim C5. After \<open>maxRequests\<close> recorded requests of a client inside the window, the next
  check inside the window is claimed to be limited. With the configuration of the image
  endpoint (10 requests in 300 seconds), nine requests at time 0 and a tenth at 100
  seconds, the eleventh check at 100.001 seconds is limited when the tenth request drew no
  cleanup, and is not limited when it did: the cleanup trims with the default window of 60
  seconds and drops the nine requests, which are still inside the 300 seconds.
\<close>

theorem C5_eleventh_image_request_admitted:
  "isLimited (checkRateLimit ''k'' image_config 100001
      (record_all (ten_image_calls False) Map.empty))
   \<and> \<not> isLimited (checkRateLimit ''k'' image_config 100001
      (record_all (ten_image_calls True) Map.empty))"
  by (simp add: checkRateLimit_def image_config_def ten_image_calls_def recordRequest_def Let_def
       cleanupOldRequests_def DEFAULT_windowMs_def numeral_eq_Suc)

text \<open>
  Claim C9. The cleanup that \<^verbatim>\<open>recordRequest\<close> starts is claimed never to change the
  result of a later check. It trims with the default window of 60 seconds whatever the
  endpoint's window is: with the image endpoint's window of 300 seconds, nine requests at
  time 0 and a tenth at 100 seconds, the check at 100.001 seconds is limited when the
  tenth request started no cleanup and not limited when it did.
\<close>

theorem C9_cleanup_changes_image_limit:
  "isLimited (checkRateLimit ''k'' image_config 100001
      (recordRequest ''k'' 100000 False 100000 [''k'' \<mapsto> replicate 9 0]))
   \<and> \<not> isLimited (checkRateLimit ''k'' image_config 100001
      (recordRequest ''k'' 100000 True 100000 [''k'' \<mapsto> replicate 9 0]))"
  by (simp add: checkRateLimit_def recordRequest_def cleanupOldRequests_def image_config_def
       DEFAULT_windowMs_def numeral_eq_Suc Let_def)

section \<open>The client key\<close>

lemma hd_split_on: "split_on c s = l # ls \<Longrightarrow> l = takeWhile (\<lambda>x. x \<noteq> c) s"
  using split_on_nonempty[of c]
  by (induction s arbitrary: l ls) (auto split: if_splits list.splits)

lemma trim_unknown: "trim ''unknown'' = ''unknown''"
  by (simp add: trim_def js_space_def)

text \<open>
  Claim C10, as the code has it. When the headers hold none of \<^verbatim>\<open>x-forwarded-for\<close>,
  \<^verbatim>\<open>x-real-ip\<close> and \<^verbatim>\<open>cf-connecting-ip\<close>, the client key is \<^verbatim>\<open>unknown\<close>, the same for
  all such clients. When \<^verbatim>\<open>x-forwarded-for\<close> is present and not empty, the key is its first
  comma-separated entry, trimmed.
\<close>

theorem C10_getClientIP:
  "(headers ''x-forwarded-for'' = None \<and> headers ''x-real-ip'' = None
      \<and> headers ''cf-connecting-ip'' = None
      \<longrightarrow> getClientIP headers = ''unknown'')
   \<and> (headers ''x-forwarded-for'' = Some v \<and> v \<noteq> [] \<longrightarrow> getClientIP headers = first_entry v)"
proof -
  have "getClientIP headers = first_entry v" if "headers ''x-forwarded-for'' = Some v" "v \<noteq> []"
  proof -
    obtain l ls where s: "split_on (CHR '','') v = l # ls"
      using split_on_nonempty[of "CHR '',''" v] by (cases "split_on (CHR '','') v") auto
    from hd_split_on[OF s] that s show ?thesis
      by (simp add: getClientIP_def first_entry_def)
  qed
  moreover have "getClientIP headers = ''unknown''"
    if "headers ''x-forwarded-for'' = None" "headers ''x-real-ip'' = None"
       "headers ''cf-connecting-ip'' = None"
    using that by (simp add: getClientIP_def trim_unknown)
  ultimately show ?thesis by blast
qed

theorem C10_getClientIP_witness:
  "getClientIP (\<lambda>h. None) = ''unknown''
   \<and> getClientIP [''x-forwarded-for'' \<mapsto> ''203.0.113.7 , 10.0.0.1''] = ''203.0.113.7''"
  using C10_getClientIP[of "\<lambda>h. None" "[]"]
    C10_getClientIP[of "[''x-forwarded-for'' \<mapsto> ''203.0.113.7 , 10.0.0.1'']"
                       "''203.0.113.7 , 10.0.0.1''"]
  by (simp add: first_entry_def trim_def js_space_def)

text \<open>
  Claim C10 as stated fails for a header that is present and empty: the \<^verbatim>\<open>||\<close> chain
  passes over it, and the key comes from \<^verbatim>\<open>x-real-ip\<close>, not from the first entry of
  \<^verbatim>\<open>x-forwarded-for\<close>.
\<close>

theorem C10_empty_forwarded_for_counterexample:
  "getClientIP [''x-forwarded-for'' \<mapsto> [], ''x-real-ip'' \<mapsto> ''10.0.0.1''] \<noteq> first_entry []"
  by (simp add: getClientIP_def first_entry_def trim_def js_space_def)

end
